theory Spec2Isabelle
  imports Complex_Main "HOL-Library.AList"
begin

section \<open>The Memory layer of Penzer (src/Agent/memory.py)\<close>

text \<open>
  A shallow embedding of class \<open>Memory\<close>: the SQLite task queue and the vector store with
  its two backends (FAISS index, numpy matrix), together with the files of the index
  directory. Every method takes the state of the object and returns its outcome
  (\<open>Inl\<close> an exception, \<open>Inr\<close> the returned value) paired with the state it leaves
  behind, so that what a raising call has already mutated stays visible.

  Vector components are \<open>real\<close>: the rounding of \<open>numpy.float32\<close> is left out, and no
  statement below depends on arithmetic over the components.
\<close>

subsection \<open>Data\<close>

type_synonym vec = "real list"

text \<open>\<open>Dict[str, Any]\<close>: keys with their JSON-encoded values, in insertion order.\<close>
type_synonym metadata = "(string \<times> string) list"

text \<open>One entry of a search result: \<open>(emb_id, score, metadata)\<close>.\<close>
type_synonym hit = "string \<times> real \<times> metadata"

datatype error =
    RuntimeError_numpy
  | ValueError_dim int int
  | ValueError_vstack
  | AssertionError_faiss
  | OSError
  | ParseError
  | AttributeError
  | IndexError
  | SqliteError

text \<open>
  \<open>RuntimeError_numpy\<close>: lines 188 and 245 (\<open>_HAS_NUMPY\<close> is false).
  \<open>ValueError_dim expected got\<close>: lines 195 and 252.
  \<open>ValueError_vstack\<close>: \<open>np.vstack\<close> on rows of another width.
  \<open>AssertionError_faiss\<close>: \<open>add_with_ids\<close> on a vector of another width than the index.
  \<open>OSError\<close>: a file or directory cannot be written.
  \<open>ParseError\<close>: \<open>json.load\<close>, \<open>np.load\<close> or \<open>read_index\<close> on content they reject.
  \<open>AttributeError\<close>: a call through \<open>np\<close> when \<open>np\<close> is \<open>None\<close>.
  \<open>IndexError\<close>: \<open>np.delete\<close> past the last row.
  \<open>SqliteError\<close>: an awaited call of \<open>aiosqlite\<close> raises.
\<close>

text \<open>
  A file of the index directory: absent, present with content that its reader rejects,
  or present with content of the shape \<open>_save_index\<close> and \<open>add_embedding\<close> write.
\<close>
datatype 'a stored = Missing | Corrupt | Good 'a

datatype fname = IndexFaiss | MetaJson | EmbeddingsNpy | EmbIdsJson | MetadataJson

text \<open>
  The directory \<open>index_dir\<close>. \<open>meta_json\<close> holds the payload
  \<open>{"id_map": ..., "next_int_id": ...}\<close>, each key optional as \<open>payload.get\<close> reads it.
  \<open>unwritable f\<close> says that opening \<open>f\<close> for writing raises; \<open>mkdir_fails\<close> that
  \<open>os.makedirs\<close> raises.
\<close>
record directory =
  mkdir_fails :: bool
  unwritable :: "fname \<Rightarrow> bool"
  index_faiss :: "(int \<times> vec) list stored"
  meta_json :: "((int \<times> string) list option \<times> int option) stored"
  embeddings_npy :: "vec list stored"
  emb_ids_json :: "string list stored"
  metadata_json :: "(string \<times> metadata) list stored"

text \<open>A row of table \<open>tasks(id PRIMARY KEY, command, status DEFAULT 'pending', result)\<close>.\<close>
record task =
  task_id :: string
  command :: string
  status :: string
  result :: "string option"

text \<open>
  The object. \<open>has_numpy\<close> is the module's \<open>_HAS_NUMPY\<close>; \<open>conn\<close> says \<open>_conn\<close> is not
  \<open>None\<close>; \<open>db\<close> is the table in row order. \<open>use_faiss\<close> stands for
  \<open>self._use_faiss and self._faiss is not None\<close> (the constructor sets both together).
  The FAISS index is external: it is kept as the list of the \<open>(int id, vector)\<close> pairs
  added to it, and \<open>faiss_remove_ids\<close> says whether this build's \<open>remove_ids\<close> works.
  \<open>intid_to_str\<close> is a \<open>dict\<close>: an association list in insertion order.
\<close>
record memory =
  has_numpy :: bool
  conn :: bool
  db :: "task list"
  embedding_dim :: int
  use_faiss :: bool
  faiss_remove_ids :: bool
  faiss_index :: "(int \<times> vec) list option"
  intid_to_str :: "(int \<times> string) list"
  next_int_id :: int
  emb_matrix :: "vec list option"
  emb_ids :: "string list"
  index_dir :: directory

subsection \<open>SQLite task queue\<close>

text \<open>
  The awaited calls of \<open>aiosqlite\<close>. None of them is inside a \<open>try\<close>: an exception of
  the database leaves the method at that call. Every queue method takes \<open>raises\<close>, which
  says which of these calls raise while it runs.
\<close>
datatype db_call = Connect | CreateTable | Insert | Select | Update | Commit | Close

text \<open>
  \<open>_ensure_conn\<close>: \<open>_conn\<close> is assigned as soon as \<open>connect\<close> returns, before the table
  is created and the creation committed.
\<close>
definition ensure_conn :: "(db_call \<Rightarrow> bool) \<Rightarrow> memory \<Rightarrow> error option \<times> memory" where
  "ensure_conn raises s =
    (if conn s then (None, s)
     else if raises Connect then (Some SqliteError, s)
     else if raises CreateTable then (Some SqliteError, s\<lparr>conn := True\<rparr>)
     else if raises Commit then (Some SqliteError, s\<lparr>conn := True\<rparr>)
     else (None, s\<lparr>conn := True\<rparr>))"

text \<open>
  \<open>INSERT OR IGNORE\<close>: a row whose id is already in the table is not inserted. \<open>db\<close> is
  the table as this connection sees it, so a statement that ran shows in it even when
  the \<open>commit\<close> after it raises.
\<close>
definition add_task ::
  "(db_call \<Rightarrow> bool) \<Rightarrow> string \<Rightarrow> string \<Rightarrow> memory \<Rightarrow> (error + unit) \<times> memory" where
  "add_task raises tid cmd s =
    (case ensure_conn raises s of
       (Some e, s1) \<Rightarrow> (Inl e, s1)
     | (None, s1) \<Rightarrow>
         if raises Insert then (Inl SqliteError, s1)
         else
           (let s2 = (if tid \<in> set (map task_id (db s1)) then s1
                      else s1\<lparr>db := db s1 @
                             [\<lparr>task_id = tid, command = cmd, status = ''pending'',
                               result = None\<rparr>]\<rparr>)
            in if raises Commit then (Inl SqliteError, s2) else (Inr (), s2)))"

definition get_next_task ::
  "(db_call \<Rightarrow> bool) \<Rightarrow> memory \<Rightarrow> (error + (string \<times> string) option) \<times> memory" where
  "get_next_task raises s =
    (case ensure_conn raises s of
       (Some e, s1) \<Rightarrow> (Inl e, s1)
     | (None, s1) \<Rightarrow>
         if raises Select then (Inl SqliteError, s1)
         else
           (case find (\<lambda>r. status r = ''pending'') (db s1) of
              None \<Rightarrow> (Inr None, s1)
            | Some row \<Rightarrow> (Inr (Some (task_id row, command row)), s1)))"

text \<open>
  \<open>UPDATE tasks SET status=?, result=? WHERE id=?\<close> with \<open>("done", result, task_id)\<close>,
  then \<open>commit\<close>. The number of rows the statement matched is not looked at.
\<close>
definition store_result ::
  "(db_call \<Rightarrow> bool) \<Rightarrow> string \<Rightarrow> string \<Rightarrow> memory \<Rightarrow> (error + unit) \<times> memory" where
  "store_result raises tid res s =
    (case ensure_conn raises s of
       (Some e, s1) \<Rightarrow> (Inl e, s1)
     | (None, s1) \<Rightarrow>
         if raises Update then (Inl SqliteError, s1)
         else
           (let s2 = s1\<lparr>db := map (\<lambda>r. if task_id r = tid
                                        then r\<lparr>status := ''done'', result := Some res\<rparr>
                                        else r)
                                  (db s1)\<rparr>
            in if raises Commit then (Inl SqliteError, s2) else (Inr (), s2)))"

definition close :: "(db_call \<Rightarrow> bool) \<Rightarrow> memory \<Rightarrow> (error + unit) \<times> memory" where
  "close raises s =
    (if conn s
     then (if raises Close then (Inl SqliteError, s) else (Inr (), s\<lparr>conn := False\<rparr>))
     else (Inr (), s))"

text \<open>
  The observation the properties of the queue are stated with: the row of the table
  stored under a task id (the primary key).
\<close>
definition select_task :: "string \<Rightarrow> memory \<Rightarrow> task option" where
  "select_task tid s = find (\<lambda>r. task_id r = tid) (db s)"

subsection \<open>Persistence of the index\<close>

text \<open>Opening a file for writing and dumping the content: the exception, if any, and the directory.\<close>
definition write_file ::
  "fname \<Rightarrow> (directory \<Rightarrow> directory) \<Rightarrow> directory \<Rightarrow> error option \<times> directory" where
  "write_file f put d = (if unwritable d f then (Some OSError, d) else (None, put d))"

text \<open>
  \<open>_load_index\<close>: the exception it raises, if any, and the object as the statements
  before the exception left it.
\<close>
definition load_index :: "memory \<Rightarrow> error option \<times> memory" where
  "load_index s =
    (let d = index_dir s in
     if use_faiss s then
       (case (case index_faiss d of
                Missing \<Rightarrow> (None, s)
              | Corrupt \<Rightarrow> (Some ParseError, s)
              | Good ix \<Rightarrow> (None, s\<lparr>faiss_index := Some ix\<rparr>)) of
          (Some e, s1) \<Rightarrow> (Some e, s1)
        | (None, s1) \<Rightarrow>
            (case meta_json d of
               Missing \<Rightarrow> (None, s1)
             | Corrupt \<Rightarrow> (Some ParseError, s1)
             | Good (id_map, nxt) \<Rightarrow>
                 (None, s1\<lparr>intid_to_str := (case id_map of None \<Rightarrow> [] | Some m \<Rightarrow> m),
                            next_int_id := (case nxt of None \<Rightarrow> 1 | Some n \<Rightarrow> n)\<rparr>)))
     else if embeddings_npy d = Missing \<or> emb_ids_json d = Missing then (None, s)
     else if \<not> has_numpy s then (Some AttributeError, s)
     else
       (case embeddings_npy d of
          Missing \<Rightarrow> (None, s)
        | Corrupt \<Rightarrow> (Some ParseError, s)
        | Good m \<Rightarrow>
            (case emb_ids_json d of
               Missing \<Rightarrow> (None, s\<lparr>emb_matrix := Some m\<rparr>)
             | Corrupt \<Rightarrow> (Some ParseError, s\<lparr>emb_matrix := Some m\<rparr>)
             | Good ids \<Rightarrow> (None, s\<lparr>emb_matrix := Some m, emb_ids := ids\<rparr>))))"

text \<open>
  The body of the \<open>try\<close> of \<open>_save_index\<close>: the exception raised inside it, if any,
  and the directory as the writes before the exception left it.
\<close>
definition save_index_body :: "memory \<Rightarrow> error option \<times> directory" where
  "save_index_body s =
    (let d = index_dir s in
     (case (if use_faiss s then faiss_index s else None) of
        Some ix \<Rightarrow>
          (case write_file IndexFaiss (\<lambda>d. d\<lparr>index_faiss := Good ix\<rparr>) d of
             (Some e, d1) \<Rightarrow> (Some e, d1)
           | (None, d1) \<Rightarrow>
               write_file MetaJson
                 (\<lambda>d. d\<lparr>meta_json := Good (Some (intid_to_str s), Some (next_int_id s))\<rparr>) d1)
      | None \<Rightarrow>
          (case (case emb_matrix s of
                   None \<Rightarrow> (None, d)
                 | Some m \<Rightarrow>
                     if has_numpy s
                     then write_file EmbeddingsNpy (\<lambda>d. d\<lparr>embeddings_npy := Good m\<rparr>) d
                     else (Some AttributeError, d)) of
             (Some e, d1) \<Rightarrow> (Some e, d1)
           | (None, d1) \<Rightarrow>
               write_file EmbIdsJson (\<lambda>d. d\<lparr>emb_ids_json := Good (emb_ids s)\<rparr>) d1)))"

text \<open>\<open>_save_index\<close>: \<open>except Exception: pass\<close> drops the exception of the body.\<close>
definition save_index :: "memory \<Rightarrow> memory" where
  "save_index s = s\<lparr>index_dir := snd (save_index_body s)\<rparr>"

text \<open>
  \<open>Memory.__init__\<close>, from what the environment provides: whether numpy and faiss
  import, whether this faiss removes ids, the rows of the database, the dimension and
  the directory. \<open>os.makedirs\<close> is outside every \<open>try\<close>; the exception of
  \<open>_load_index\<close> is dropped (\<open>except Exception: pass\<close>).
\<close>
definition Memory_init ::
  "bool \<Rightarrow> bool \<Rightarrow> bool \<Rightarrow> task list \<Rightarrow> int \<Rightarrow> directory \<Rightarrow> error + memory" where
  "Memory_init numpy faiss rm rows edim d =
    (if mkdir_fails d then Inl OSError
     else Inr (snd (load_index
       \<lparr>has_numpy = numpy, conn = False, db = rows, embedding_dim = edim,
        use_faiss = faiss, faiss_remove_ids = rm, faiss_index = None,
        intid_to_str = [], next_int_id = 1, emb_matrix = None, emb_ids = [],
        index_dir = d\<rparr>)))"

subsection \<open>Vector store\<close>

text \<open>
  The metadata step of \<open>add_embedding\<close> (lines 221 to 233): read \<open>metadata.json\<close> if it
  exists, set the entry of \<open>emb_id\<close>, write the file back; any exception is dropped.
\<close>
definition store_metadata :: "string \<Rightarrow> metadata option \<Rightarrow> directory \<Rightarrow> directory" where
  "store_metadata emb_id md d =
    (case md of
       None \<Rightarrow> d
     | Some m \<Rightarrow>
         (case (case metadata_json d of
                  Missing \<Rightarrow> Inr []
                | Corrupt \<Rightarrow> Inl ParseError
                | Good ex \<Rightarrow> Inr ex) of
            Inl e \<Rightarrow> d
          | Inr existing \<Rightarrow>
              snd (write_file MetadataJson
                     (\<lambda>d. d\<lparr>metadata_json := Good (AList.update emb_id m existing)\<rparr>) d)))"

text \<open>
  The FAISS branch of \<open>add_embedding\<close> (lines 197 to 211). The counter and the mapping
  are updated before \<open>add_with_ids\<close>, which rejects a vector of another width than the
  vectors the index holds.
\<close>
definition faiss_add :: "string \<Rightarrow> vec \<Rightarrow> memory \<Rightarrow> (error + unit) \<times> memory" where
  "faiss_add emb_id v s =
    (let ix = (case faiss_index s of None \<Rightarrow> [] | Some ix \<Rightarrow> ix);
         int_id = next_int_id s;
         s1 = s\<lparr>faiss_index := Some ix,
                next_int_id := int_id + 1,
                intid_to_str := AList.update int_id emb_id (intid_to_str s)\<rparr>
     in if list_all (\<lambda>kw. length (snd kw) = length v) ix
        then (Inr (), save_index (s1\<lparr>faiss_index := Some (ix @ [(int_id, v)])\<rparr>))
        else (Inl AssertionError_faiss, s1))"

text \<open>The numpy branch of \<open>add_embedding\<close> (lines 212 to 219).\<close>
definition numpy_add :: "string \<Rightarrow> vec \<Rightarrow> memory \<Rightarrow> (error + unit) \<times> memory" where
  "numpy_add emb_id v s =
    (case emb_matrix s of
       None \<Rightarrow>
         (Inr (), save_index (s\<lparr>emb_matrix := Some [v], emb_ids := emb_ids s @ [emb_id]\<rparr>))
     | Some m \<Rightarrow>
         if list_all (\<lambda>r. length r = length v) m
         then (Inr (), save_index (s\<lparr>emb_matrix := Some (m @ [v]),
                                     emb_ids := emb_ids s @ [emb_id]\<rparr>))
         else (Inl ValueError_vstack, s))"

text \<open>
  \<open>add_embedding\<close>. The argument is a \<open>List[float]\<close>, so \<open>vec.ndim\<close> is 1 and
  \<open>vec.reshape(1, -1)\<close> is the one row \<open>vector\<close>: \<open>vec.shape[1]\<close> is its length.
\<close>
definition add_embedding ::
  "string \<Rightarrow> vec \<Rightarrow> metadata option \<Rightarrow> memory \<Rightarrow> (error + unit) \<times> memory" where
  "add_embedding emb_id vector md s =
    (if \<not> has_numpy s then (Inl RuntimeError_numpy, s)
     else if int (length vector) \<noteq> embedding_dim s
     then (Inl (ValueError_dim (embedding_dim s) (int (length vector))), s)
     else
       (case (if use_faiss s then faiss_add emb_id vector s else numpy_add emb_id vector s) of
          (Inl e, s1) \<Rightarrow> (Inl e, s1)
        | (Inr u, s1) \<Rightarrow>
            (Inr (), s1\<lparr>index_dir := store_metadata emb_id md (index_dir s1)\<rparr>)))"

text \<open>
  \<open>search_embeddings\<close>. In the source, everything from \<open>results = []\<close> (line 254) to
  \<open>return results\<close> (line 295) is indented under
  \<open>if q.shape[1] != self.embedding_dim:\<close>, after the \<open>raise\<close> of line 252: those lines
  never run. A query of the right dimension skips the \<open>if\<close> and falls off the end of
  the function, which returns \<open>None\<close>.
\<close>
definition search_embeddings ::
  "vec \<Rightarrow> int \<Rightarrow> memory \<Rightarrow> (error + hit list option) \<times> memory" where
  "search_embeddings query_vector top_k s =
    (if \<not> has_numpy s then (Inl RuntimeError_numpy, s)
     else if int (length query_vector) \<noteq> embedding_dim s
     then (Inl (ValueError_dim (embedding_dim s) (int (length query_vector))), s)
     else (Inr None, s))"

definition list_embedding_ids :: "memory \<Rightarrow> string list" where
  "list_embedding_ids s = (if use_faiss s then map snd (intid_to_str s) else emb_ids s)"

text \<open>\<open>get_metadata\<close>: \<open>payload.get(emb_id, {})\<close> inside \<open>try\<close>, \<open>{}\<close> from the handler.\<close>
definition get_metadata :: "string \<Rightarrow> memory \<Rightarrow> (error + metadata) \<times> memory" where
  "get_metadata emb_id s =
    (if metadata_json (index_dir s) = Missing then (Inr [], s)
     else
       (case (case metadata_json (index_dir s) of
                Missing \<Rightarrow> Inl OSError
              | Corrupt \<Rightarrow> Inl ParseError
              | Good payload \<Rightarrow>
                  Inr (case map_of payload emb_id of None \<Rightarrow> [] | Some m \<Rightarrow> m)) of
          Inl e \<Rightarrow> (Inr [], s)
        | Inr m \<Rightarrow> (Inr m, s)))"

text \<open>\<open>list.index\<close> (of an element the caller knows to be there) and \<open>list.pop(idx)\<close>.\<close>
definition index_of :: "'a \<Rightarrow> 'a list \<Rightarrow> nat" where
  "index_of x xs = length (takeWhile (\<lambda>y. y \<noteq> x) xs)"

definition pop :: "nat \<Rightarrow> 'a list \<Rightarrow> 'a list" where
  "pop i xs = take i xs @ drop (Suc i) xs"

text \<open>
  \<open>delete_embedding\<close>. FAISS branch: the first key of the mapping whose value is
  \<open>emb_id\<close>; \<open>remove_ids\<close> inside \<open>try\<close> (it needs \<open>np.array\<close>); the key is popped.
  The numpy branch is also the one taken with FAISS while no index exists yet.
\<close>
definition delete_embedding :: "string \<Rightarrow> memory \<Rightarrow> (error + bool) \<times> memory" where
  "delete_embedding emb_id s =
    (case (if use_faiss s then faiss_index s else None) of
       Some ix \<Rightarrow>
         (case find (\<lambda>kv. snd kv = emb_id) (intid_to_str s) of
            None \<Rightarrow> (Inr False, s)
          | Some (int_id, v) \<Rightarrow>
              (let s1 = (if has_numpy s \<and> faiss_remove_ids s
                         then s\<lparr>faiss_index := Some (filter (\<lambda>kw. fst kw \<noteq> int_id) ix)\<rparr>
                         else s);
                   s2 = s1\<lparr>intid_to_str := AList.delete int_id (intid_to_str s1)\<rparr>
               in (Inr True, save_index s2)))
     | None \<Rightarrow>
         if emb_ids s \<noteq> [] \<and> emb_id \<in> set (emb_ids s) then
           (let idx = index_of emb_id (emb_ids s) in
            (case emb_matrix s of
               None \<Rightarrow> (Inr True, save_index (s\<lparr>emb_ids := pop idx (emb_ids s)\<rparr>))
             | Some m \<Rightarrow>
                 if \<not> has_numpy s then (Inl AttributeError, s)
                 else if length m \<le> idx then (Inl IndexError, s)
                 else (Inr True,
                       save_index (s\<lparr>emb_matrix := Some (pop idx m),
                                     emb_ids := pop idx (emb_ids s)\<rparr>))))
         else (Inr False, s))"

subsection \<open>Stores, operation sequences and well-formedness used in the statements\<close>


text \<open>A writable directory without any file, and one in which no file can be written.\<close>
definition empty_dir :: directory where
  "empty_dir = \<lparr>mkdir_fails = False, unwritable = (\<lambda>f. False), index_faiss = Missing,
     meta_json = Missing, embeddings_npy = Missing, emb_ids_json = Missing,
     metadata_json = Missing\<rparr>"



text \<open>The content of file \<open>f\<close> is the same in two directories.\<close>
fun same_file :: "fname \<Rightarrow> directory \<Rightarrow> directory \<Rightarrow> bool" where
  "same_file IndexFaiss d d' = (index_faiss d' = index_faiss d)"
| "same_file MetaJson d d' = (meta_json d' = meta_json d)"
| "same_file EmbeddingsNpy d d' = (embeddings_npy d' = embeddings_npy d)"
| "same_file EmbIdsJson d d' = (emb_ids_json d' = emb_ids_json d)"
| "same_file MetadataJson d d' = (metadata_json d' = metadata_json d)"

text \<open>The object without its directory: what the process holds in memory.\<close>
definition in_memory :: "memory \<Rightarrow> memory" where
  "in_memory s = s\<lparr>index_dir := empty_dir\<rparr>"

text \<open>
  Directories holding half a snapshot: the file read first is intact, the file read
  second is not (as after a write of \<open>_save_index\<close> that stopped between the two files).
\<close>
definition half_numpy_dir :: directory where
  "half_numpy_dir = empty_dir\<lparr>embeddings_npy := Good [[1, 0, 0, 0]], emb_ids_json := Corrupt\<rparr>"

definition half_faiss_dir :: directory where
  "half_faiss_dir = empty_dir\<lparr>index_faiss := Good [(1, [1, 0, 0, 0])], meta_json := Corrupt\<rparr>"

text \<open>
  The object the constructor builds for dimension 4 with numpy present, before
  \<open>_load_index\<close> runs; \<open>faiss\<close> chooses the backend.
\<close>
definition new_store :: "bool \<Rightarrow> directory \<Rightarrow> memory" where
  "new_store faiss d =
    \<lparr>has_numpy = True, conn = False, db = [], embedding_dim = 4,
     use_faiss = faiss, faiss_remove_ids = True, faiss_index = None,
     intid_to_str = [], next_int_id = 1, emb_matrix = None, emb_ids = [],
     index_dir = d\<rparr>"

text \<open>
  A caller replaying mutations: each call runs on the object the previous one left,
  whether it returned or raised.
\<close>
datatype op = Add string vec "metadata option" | Delete string

fun apply_op :: "op \<Rightarrow> memory \<Rightarrow> memory" where
  "apply_op (Add e v m) s = snd (add_embedding e v m s)"
| "apply_op (Delete e) s = snd (delete_embedding e s)"

definition replay :: "op list \<Rightarrow> memory \<Rightarrow> memory" where
  "replay ops s = fold apply_op ops s"

text \<open>Every \<open>add_embedding\<close> of the sequence is called with an id the store does not know then.\<close>
fun fresh_adds :: "op list \<Rightarrow> memory \<Rightarrow> bool" where
  "fresh_adds [] s = True"
| "fresh_adds (Add e v m # ops) s =
     (e \<notin> set (list_embedding_ids s) \<and> fresh_adds ops (apply_op (Add e v m) s))"
| "fresh_adds (Delete e # ops) s = fresh_adds ops (apply_op (Delete e) s)"

text \<open>
  The stores the constructor and the two mutations produce from an empty directory:
  numpy is present; with FAISS the numpy id list is unused, the keys of the mapping are
  distinct and below the counter, the mapping is empty while no index exists and every
  indexed vector has the configured width; without FAISS the matrix has one row of the
  configured width per id.
\<close>
definition wf_store :: "memory \<Rightarrow> bool" where
  "wf_store s =
    (has_numpy s \<and>
     (if use_faiss s then
        emb_ids s = [] \<and>
        distinct (map fst (intid_to_str s)) \<and>
        list_all (\<lambda>kv. fst kv < next_int_id s) (intid_to_str s) \<and>
        (case faiss_index s of
           None \<Rightarrow> intid_to_str s = []
         | Some ix \<Rightarrow> list_all (\<lambda>kw. int (length (snd kw)) = embedding_dim s) ix)
      else
        (case emb_matrix s of
           None \<Rightarrow> emb_ids s = []
         | Some m \<Rightarrow> length m = length (emb_ids s) \<and>
                     list_all (\<lambda>r. int (length r) = embedding_dim s) m)))"

subsection \<open>Lists and dictionaries\<close>

lemma index_of_less: "x \<in> set xs \<Longrightarrow> index_of x xs < length xs"
  by (induction xs) (auto simp: index_of_def)

lemma pop_index_of: "x \<in> set xs \<Longrightarrow> pop (index_of x xs) xs = remove1 x xs"
  by (induction xs) (auto simp: index_of_def pop_def)

lemma length_pop: "i < length xs \<Longrightarrow> length (pop i xs) = length xs - 1"
  by (simp add: pop_def)

lemma list_all_pop: "list_all P xs \<Longrightarrow> list_all P (pop i xs)"
  by (auto simp: pop_def list_all_iff dest: in_set_takeD in_set_dropD)

lemma find_value_None: "(find (\<lambda>kv. snd kv = e) xs = None) = (e \<notin> set (map snd xs))"
  by (induction xs) auto

lemma find_value_key: "find (\<lambda>kv. snd kv = e) xs = Some (k, v) \<Longrightarrow> v = e \<and> k \<in> fst ` set xs"
  by (induction xs) (auto split: if_splits)

lemma delete_first_value:
  "distinct (map fst xs) \<Longrightarrow> find (\<lambda>kv. snd kv = e) xs = Some (k, v) \<Longrightarrow>
   map snd (AList.delete k xs) = remove1 e (map snd xs)"
proof (induction xs)
  case Nil
  then show ?case by simp
next
  case (Cons p xs)
  show ?case
  proof (cases "snd p = e")
    case True
    with Cons.prems have kp: "p = (k, v)" by simp
    with Cons.prems have "k \<notin> fst ` set xs" by simp
    then have "AList.delete k xs = xs" by (simp add: delete_id)
    with kp True show ?thesis by simp
  next
    case False
    with Cons.prems have f: "find (\<lambda>kv. snd kv = e) xs = Some (k, v)" by simp
    then have "k \<in> fst ` set xs" by (auto dest: find_value_key)
    with Cons.prems have "fst p \<noteq> k" by auto
    with False Cons.IH Cons.prems f show ?thesis by (cases p) simp
  qed
qed

lemma update_fresh_key:
  "list_all (\<lambda>kv. fst kv < n) xs \<Longrightarrow> AList.update (n::int) e xs = xs @ [(n, e)]"
  by (induction xs) auto


subsection \<open>What \<open>add_embedding\<close> and \<open>delete_embedding\<close> do to a well-formed store\<close>

lemma save_index_mem [simp]:
  "has_numpy (save_index s) = has_numpy s"
  "embedding_dim (save_index s) = embedding_dim s"
  "use_faiss (save_index s) = use_faiss s"
  "faiss_index (save_index s) = faiss_index s"
  "intid_to_str (save_index s) = intid_to_str s"
  "next_int_id (save_index s) = next_int_id s"
  "emb_matrix (save_index s) = emb_matrix s"
  "emb_ids (save_index s) = emb_ids s"
  by (simp_all add: save_index_def)

lemma wf_store_save_index [simp]: "wf_store (save_index s) = wf_store s"
  by (simp add: wf_store_def cong: option.case_cong)

lemma wf_store_index_dir [simp]: "wf_store (s\<lparr>index_dir := d\<rparr>) = wf_store s"
  by (simp add: wf_store_def cong: option.case_cong)

lemma ids_save_index [simp]: "list_embedding_ids (save_index s) = list_embedding_ids s"
  by (simp add: list_embedding_ids_def)

lemma ids_index_dir [simp]: "list_embedding_ids (s\<lparr>index_dir := d\<rparr>) = list_embedding_ids s"
  by (simp add: list_embedding_ids_def)

lemma same_width:
  "int (length v) = d \<Longrightarrow>
   list_all (\<lambda>r. int (length (f r)) = d) m = list_all (\<lambda>r. length (f r) = length v) m"
  by (auto simp: list_all_iff)

lemma numpy_add_ok:
  assumes "wf_store s" "\<not> use_faiss s" "int (length v) = embedding_dim s"
  shows "fst (numpy_add e v s) = Inr () \<and>
         wf_store (snd (numpy_add e v s)) \<and>
         list_embedding_ids (snd (numpy_add e v s)) = list_embedding_ids s @ [e]"
proof (cases "emb_matrix s")
  case None
  with assms show ?thesis
    by (simp add: numpy_add_def wf_store_def list_embedding_ids_def)
next
  case (Some m)
  with assms have rows: "list_all (\<lambda>r. int (length r) = embedding_dim s) m"
    and len: "length m = length (emb_ids s)" and np: "has_numpy s"
    by (simp_all add: wf_store_def)
  from rows assms(3) have same: "list_all (\<lambda>r. length r = length v) m"
    using same_width [of v "embedding_dim s" "\<lambda>r. r" m] by simp
  from Some same rows len np assms(2,3) show ?thesis
    by (simp add: numpy_add_def wf_store_def list_embedding_ids_def)
qed


lemma faiss_add_ok:
  assumes "wf_store s" "use_faiss s" "int (length v) = embedding_dim s"
  shows "fst (faiss_add e v s) = Inr () \<and>
         wf_store (snd (faiss_add e v s)) \<and>
         list_embedding_ids (snd (faiss_add e v s)) = list_embedding_ids s @ [e]"
proof -
  define ix where "ix = (case faiss_index s of None \<Rightarrow> [] | Some ix \<Rightarrow> ix)"
  from assms have keys: "list_all (\<lambda>kv. fst kv < next_int_id s) (intid_to_str s)"
    and dist: "distinct (map fst (intid_to_str s))" and np: "has_numpy s"
    and ids: "emb_ids s = []"
    by (simp_all add: wf_store_def)
  from assms have rows: "list_all (\<lambda>kw. int (length (snd kw)) = embedding_dim s) ix"
    by (simp add: wf_store_def ix_def split: option.splits)
  with assms(3) have same: "list_all (\<lambda>kw. length (snd kw) = length v) ix"
    using same_width [of v "embedding_dim s" snd ix] by simp
  have upd: "AList.update (next_int_id s) e (intid_to_str s) = intid_to_str s @ [(next_int_id s, e)]"
    using keys by (rule update_fresh_key)
  have fresh: "next_int_id s \<notin> fst ` set (intid_to_str s)"
    using keys by (auto simp: list_all_iff)
  have keys': "list_all (\<lambda>kv. fst kv < next_int_id s + 1) (intid_to_str s)"
    using keys by (auto simp: list_all_iff)
  from same rows upd fresh keys' dist np ids assms(2,3) show ?thesis
    by (simp add: faiss_add_def Let_def ix_def [symmetric] wf_store_def list_embedding_ids_def)
qed

lemma add_embedding_ok:
  assumes "wf_store s" "int (length v) = embedding_dim s"
  shows "fst (add_embedding e v m s) = Inr () \<and>
         wf_store (snd (add_embedding e v m s)) \<and>
         list_embedding_ids (snd (add_embedding e v m s)) = list_embedding_ids s @ [e]"
proof -
  from assms(1) have np: "has_numpy s" by (simp add: wf_store_def)
  show ?thesis
  proof (cases "use_faiss s")
    case True
    from faiss_add_ok [OF assms(1) True assms(2), of e] np assms(2) True show ?thesis
      by (cases "faiss_add e v s") (auto simp: add_embedding_def)
  next
    case False
    from numpy_add_ok [OF assms(1) False assms(2), of e] np assms(2) False show ?thesis
      by (cases "numpy_add e v s") (auto simp: add_embedding_def)
  qed
qed

lemma add_embedding_bad_dim:
  "has_numpy s \<Longrightarrow> int (length v) \<noteq> embedding_dim s \<Longrightarrow>
   add_embedding e v m s = (Inl (ValueError_dim (embedding_dim s) (int (length v))), s)"
  by (simp add: add_embedding_def)


lemma delete_embedding_absent:
  assumes "wf_store s" "e \<notin> set (list_embedding_ids s)"
  shows "delete_embedding e s = (Inr False, s)"
proof (cases "use_faiss s")
  case True
  show ?thesis
  proof (cases "faiss_index s")
    case None
    with True assms(1) have "emb_ids s = []" by (simp add: wf_store_def)
    with True None show ?thesis by (simp add: delete_embedding_def)
  next
    case (Some ix)
    from assms(2) True have "find (\<lambda>kv. snd kv = e) (intid_to_str s) = None"
      by (simp add: find_value_None list_embedding_ids_def)
    with True Some show ?thesis by (simp add: delete_embedding_def)
  qed
next
  case False
  with assms(2) show ?thesis by (simp add: delete_embedding_def list_embedding_ids_def)
qed

lemma delete_embedding_present_numpy:
  assumes "wf_store s" "\<not> use_faiss s" "e \<in> set (list_embedding_ids s)"
  shows "fst (delete_embedding e s) = Inr True \<and>
         wf_store (snd (delete_embedding e s)) \<and>
         list_embedding_ids (snd (delete_embedding e s)) = remove1 e (list_embedding_ids s)"
proof -
  from assms(2,3) have mem: "e \<in> set (emb_ids s)" by (simp add: list_embedding_ids_def)
  then have ne: "emb_ids s \<noteq> []" by auto
  from assms(1,2) ne obtain m where m: "emb_matrix s = Some m"
    and len: "length m = length (emb_ids s)"
    and rows: "list_all (\<lambda>r. int (length r) = embedding_dim s) m"
    and np: "has_numpy s"
    by (cases "emb_matrix s") (auto simp: wf_store_def)
  from mem have lt: "index_of e (emb_ids s) < length (emb_ids s)" by (rule index_of_less)
  from lt len have l2: "length (pop (index_of e (emb_ids s)) m)
                        = length (pop (index_of e (emb_ids s)) (emb_ids s))"
    by (simp add: length_pop)
  from rows have r2: "list_all (\<lambda>r. int (length r) = embedding_dim s)
                        (pop (index_of e (emb_ids s)) m)"
    by (rule list_all_pop)
  from mem ne m np lt len l2 r2 assms(2) pop_index_of [OF mem] show ?thesis
    by (simp add: delete_embedding_def Let_def wf_store_def list_embedding_ids_def)
qed

lemma delete_embedding_present_faiss:
  assumes "wf_store s" "use_faiss s" "e \<in> set (list_embedding_ids s)"
  shows "fst (delete_embedding e s) = Inr True \<and>
         wf_store (snd (delete_embedding e s)) \<and>
         list_embedding_ids (snd (delete_embedding e s)) = remove1 e (list_embedding_ids s)"
proof -
  from assms(2,3) have mem: "e \<in> set (map snd (intid_to_str s))"
    by (simp add: list_embedding_ids_def)
  then have ne: "intid_to_str s \<noteq> []" by auto
  from assms(1,2) ne obtain ix where ix: "faiss_index s = Some ix"
    and rows: "list_all (\<lambda>kw. int (length (snd kw)) = embedding_dim s) ix"
    by (cases "faiss_index s") (auto simp: wf_store_def)
  from assms(1,2) have dist: "distinct (map fst (intid_to_str s))"
    and keys: "list_all (\<lambda>kv. fst kv < next_int_id s) (intid_to_str s)"
    and np: "has_numpy s" and ids: "emb_ids s = []"
    by (simp_all add: wf_store_def)
  from mem obtain k v where f: "find (\<lambda>kv. snd kv = e) (intid_to_str s) = Some (k, v)"
    using find_value_None [of e "intid_to_str s"] by (cases "find (\<lambda>kv. snd kv = e) (intid_to_str s)") auto
  have d1: "map snd (AList.delete k (intid_to_str s)) = remove1 e (map snd (intid_to_str s))"
    using dist f by (rule delete_first_value)
  have d2: "distinct (map fst (AList.delete k (intid_to_str s)))"
    using dist by (rule distinct_delete)
  have d3: "list_all (\<lambda>kv. fst kv < next_int_id s) (AList.delete k (intid_to_str s))"
    using keys by (auto simp: list_all_iff AList.delete_eq)
  have d4: "list_all (\<lambda>kw. int (length (snd kw)) = embedding_dim s) (filter (\<lambda>kw. fst kw \<noteq> k) ix)"
    using rows by (auto simp: list_all_iff)
  from ix f d1 d2 d3 d4 rows np ids assms(2) show ?thesis
    by (simp add: delete_embedding_def Let_def wf_store_def list_embedding_ids_def)
qed

lemma delete_embedding_present:
  assumes "wf_store s" "e \<in> set (list_embedding_ids s)"
  shows "fst (delete_embedding e s) = Inr True \<and>
         wf_store (snd (delete_embedding e s)) \<and>
         list_embedding_ids (snd (delete_embedding e s)) = remove1 e (list_embedding_ids s)"
  using assms delete_embedding_present_numpy delete_embedding_present_faiss
  by (cases "use_faiss s") blast+

lemma delete_embedding_wf: "wf_store s \<Longrightarrow> wf_store (snd (delete_embedding e s))"
  using delete_embedding_present [of s e] delete_embedding_absent [of s e]
  by (cases "e \<in> set (list_embedding_ids s)") auto

lemma delete_embedding_ids:
  "wf_store s \<Longrightarrow> list_embedding_ids (snd (delete_embedding e s)) = remove1 e (list_embedding_ids s)"
  using delete_embedding_present [of s e] delete_embedding_absent [of s e]
  by (cases "e \<in> set (list_embedding_ids s)") (auto simp: remove1_idem)

lemma add_embedding_wf: "wf_store s \<Longrightarrow> wf_store (snd (add_embedding e v m s))"
  using add_embedding_ok [of s v e m] add_embedding_bad_dim [of s v e m]
  by (cases "int (length v) = embedding_dim s") (auto simp: wf_store_def)


lemma wf_store_new_store: "wf_store (new_store faiss d)"
  by (simp add: wf_store_def new_store_def)

lemma apply_op_wf: "wf_store s \<Longrightarrow> wf_store (apply_op x s)"
  by (cases x) (simp_all add: add_embedding_wf delete_embedding_wf)

lemma replay_wf: "wf_store s \<Longrightarrow> wf_store (replay ops s)"
  unfolding replay_def by (induction ops arbitrary: s) (simp_all add: apply_op_wf)

lemma wf_store_reachable: "wf_store (replay ops (new_store faiss d))"
  by (simp add: replay_wf wf_store_new_store)

subsection \<open>Search\<close>

lemmas eval_defs =
  add_embedding_def numpy_add_def faiss_add_def delete_embedding_def search_embeddings_def
  save_index_def save_index_body_def write_file_def store_metadata_def index_of_def pop_def
  list_embedding_ids_def new_store_def empty_dir_def replay_def Let_def

lemma Memory_init_empty_dir:
  "Memory_init True faiss True [] 4 empty_dir = Inr (new_store faiss empty_dir)"
  by (simp add: Memory_init_def load_index_def empty_dir_def new_store_def Let_def)

text \<open>
  C1. Round trip: after \<open>add_embedding(id, v, m)\<close> succeeds, \<open>search_embeddings(v, top_k=1)\<close>
  is to return \<open>id\<close> first with the inner product of \<open>v\<close> with itself as score.
  The code does not: on a store of dimension 4, numpy or FAISS backed, the add of
  \<open>[1,0,0,0]\<close> under \<open>a\<close> succeeds and the search that follows returns \<open>None\<close>,
  since the whole search body sits after the \<open>raise\<close> of the dimension check.
\<close>
theorem search_after_add_returns_None:
  "fst (add_embedding ''a'' [1, 0, 0, 0] (Some []) (new_store False empty_dir)) = Inr () \<and>
   search_embeddings [1, 0, 0, 0] 1
     (snd (add_embedding ''a'' [1, 0, 0, 0] (Some []) (new_store False empty_dir)))
   = (Inr None, snd (add_embedding ''a'' [1, 0, 0, 0] (Some []) (new_store False empty_dir))) \<and>
   fst (add_embedding ''a'' [1, 0, 0, 0] (Some []) (new_store True empty_dir)) = Inr () \<and>
   fst (search_embeddings [1, 0, 0, 0] 1
     (snd (add_embedding ''a'' [1, 0, 0, 0] (Some []) (new_store True empty_dir))))
   = Inr None"
  by (simp add: eval_defs)

text \<open>
  C2. Backend equivalence: replaying the same operations against both backends,
  \<open>search_embeddings\<close> is to return the ids in the same rank order. The code returns no
  ids at all: after add \<open>a\<close>, add \<open>b\<close>, delete \<open>a\<close> both stores know exactly
  \<open>b\<close>, and the search of \<open>[1,0,0,0]\<close> with \<open>top_k = 2\<close> returns \<open>None\<close> on both.
\<close>
theorem search_both_backends_return_None:
  "list_embedding_ids (replay [Add ''a'' [1, 0, 0, 0] None, Add ''b'' [0, 1, 0, 0] None, Delete ''a'']
      (new_store False empty_dir)) = [''b''] \<and>
   list_embedding_ids (replay [Add ''a'' [1, 0, 0, 0] None, Add ''b'' [0, 1, 0, 0] None, Delete ''a'']
      (new_store True empty_dir)) = [''b''] \<and>
   fst (search_embeddings [1, 0, 0, 0] 2
     (replay [Add ''a'' [1, 0, 0, 0] None, Add ''b'' [0, 1, 0, 0] None, Delete ''a'']
        (new_store False empty_dir))) = Inr None \<and>
   fst (search_embeddings [1, 0, 0, 0] 2
     (replay [Add ''a'' [1, 0, 0, 0] None, Add ''b'' [0, 1, 0, 0] None, Delete ''a'']
        (new_store True empty_dir))) = Inr None"
  by (simp add: eval_defs)

text \<open>
  C3. A search on a store without embeddings is to return the empty list, and on a
  store with fewer than \<open>top_k\<close> vectors that smaller number of results. The code
  returns \<open>None\<close> in both cases, on both backends (the state is left as it was).
\<close>
theorem search_empty_store_returns_None:
  "search_embeddings [1, 0, 0, 0] 5 (new_store False empty_dir)
     = (Inr None, new_store False empty_dir) \<and>
   search_embeddings [1, 0, 0, 0] 5 (new_store True empty_dir)
     = (Inr None, new_store True empty_dir) \<and>
   fst (search_embeddings [1, 0, 0, 0] 5
     (snd (add_embedding ''a'' [1, 0, 0, 0] None (new_store False empty_dir)))) = Inr None"
  by (simp add: eval_defs)

subsection \<open>Dimension check\<close>

text \<open>
  C4. For every vector whose length differs from \<open>embedding_dim\<close>, \<open>add_embedding\<close>
  and \<open>search_embeddings\<close> raise the dimension-mismatch \<open>ValueError\<close> and leave the
  whole object as it was: in particular the known ids, and so their number, are the
  same before and after. (numpy is importable: without it no vector can be built and
  both methods raise before they look at the vector.)
\<close>
theorem dimension_mismatch_rejected:
  assumes "has_numpy s" "int (length v) \<noteq> embedding_dim s"
  shows "add_embedding e v m s = (Inl (ValueError_dim (embedding_dim s) (int (length v))), s) \<and>
         search_embeddings v k s = (Inl (ValueError_dim (embedding_dim s) (int (length v))), s) \<and>
         list_embedding_ids (snd (add_embedding e v m s)) = list_embedding_ids s \<and>
         list_embedding_ids (snd (search_embeddings v k s)) = list_embedding_ids s"
  using assms by (simp add: add_embedding_def search_embeddings_def)

theorem dimension_mismatch_rejected_witness:
  "has_numpy (snd (add_embedding ''a'' [1, 0, 0, 0] None (new_store False empty_dir))) \<and>
   int (length [1, 2, 3 :: real]) \<noteq>
     embedding_dim (snd (add_embedding ''a'' [1, 0, 0, 0] None (new_store False empty_dir))) \<and>
   fst (add_embedding ''b'' [1, 2, 3] None
         (snd (add_embedding ''a'' [1, 0, 0, 0] None (new_store False empty_dir))))
     = Inl (ValueError_dim 4 3) \<and>
   fst (search_embeddings [1, 2, 3] 1
         (snd (add_embedding ''a'' [1, 0, 0, 0] None (new_store False empty_dir))))
     = Inl (ValueError_dim 4 3) \<and>
   list_embedding_ids (snd (add_embedding ''b'' [1, 2, 3] None
         (snd (add_embedding ''a'' [1, 0, 0, 0] None (new_store False empty_dir))))) = [''a'']"
proof -
  let ?s = "snd (add_embedding ''a'' [1, 0, 0, 0] None (new_store False empty_dir))"
  have h1: "has_numpy ?s" by (simp add: eval_defs)
  have h2: "int (length [1, 2, 3 :: real]) \<noteq> embedding_dim ?s" by (simp add: eval_defs)
  have h3: "embedding_dim ?s = 4" by (simp add: eval_defs)
  have h4: "list_embedding_ids ?s = [''a'']" by (simp add: eval_defs)
  from dimension_mismatch_rejected [OF h1 h2, of "''b''" None 1] h1 h2 h3 h4 show ?thesis by simp
qed

subsection \<open>Metadata\<close>

text \<open>
  C10. \<open>get_metadata\<close> never raises and leaves the object unchanged: it returns the
  entry stored under the id when \<open>metadata.json\<close> exists, parses and has the id, and
  the empty mapping in every other case.
\<close>
theorem get_metadata_total:
  "get_metadata emb_id s =
     (Inr (case metadata_json (index_dir s) of
             Good payload \<Rightarrow> (case map_of payload emb_id of Some m \<Rightarrow> m | None \<Rightarrow> [])
           | Missing \<Rightarrow> []
           | Corrupt \<Rightarrow> []), s)"
  by (simp add: get_metadata_def split: stored.split option.split)


subsection \<open>Task queue\<close>

lemma find_update_rows:
  "find (\<lambda>r. task_id r = tid)
     (map (\<lambda>r. if task_id r = tid then r\<lparr>status := st, result := rs\<rparr> else r) rows)
   = map_option (\<lambda>r. r\<lparr>status := st, result := rs\<rparr>) (find (\<lambda>r. task_id r = tid) rows)"
  by (induction rows) auto

lemma update_rows_absent:
  "find (\<lambda>r. task_id r = tid) rows = None \<Longrightarrow>
   map (\<lambda>r. if task_id r = tid then r\<lparr>status := st, result := rs\<rparr> else r) rows = rows"
  by (induction rows) (auto split: if_splits)

lemma store_result_errors:
  "fst (store_result raises tid res s) = Inr () \<or>
   fst (store_result raises tid res s) = Inl SqliteError"
  by (simp add: store_result_def ensure_conn_def Let_def)

lemma store_result_runs:
  assumes "\<not> (raises Connect \<or> raises CreateTable \<or> raises Update \<or> raises Commit)"
  shows "fst (store_result raises tid res s) = Inr ()"
    and "db (snd (store_result raises tid res s))
      = map (\<lambda>r. if task_id r = tid then r\<lparr>status := ''done'', result := Some res\<rparr> else r) (db s)"
  using assms by (simp_all add: store_result_def ensure_conn_def Let_def)

text \<open>
  C6 as stated fails: with a database that works, \<open>store_result\<close> on a task id that
  is not in the table returns normally, with the table unchanged, where the claim has
  it fail with NotFound.
\<close>
theorem store_result_unknown_id_counterexample:
  "select_task ''t9'' (snd (add_task (\<lambda>c. False) ''t1'' ''ls'' (new_store False empty_dir))) = None \<and>
   fst (store_result (\<lambda>c. False) ''t9'' ''out''
         (snd (add_task (\<lambda>c. False) ''t1'' ''ls'' (new_store False empty_dir))))
     = Inr () \<and>
   db (snd (store_result (\<lambda>c. False) ''t9'' ''out''
         (snd (add_task (\<lambda>c. False) ''t1'' ''ls'' (new_store False empty_dir)))))
     = db (snd (add_task (\<lambda>c. False) ''t1'' ''ls'' (new_store False empty_dir)))"
  by (simp add: select_task_def store_result_def add_task_def ensure_conn_def new_store_def Let_def)

text \<open>
  C6, as the code has it. \<open>store_result\<close> has no failure of its own: it returns, or
  it raises what the database raised. When none of the database calls it makes raises:
  it returns normally; if no row has the task id the \<open>UPDATE\<close> matches nothing and
  the table is unchanged; if a row has it, the row fetched under that id afterwards has
  status \<open>done\<close> and exactly the result string that was stored.
\<close>
theorem store_result_updates_known_id:
  "(fst (store_result raises tid res s) = Inr () \<or>
    fst (store_result raises tid res s) = Inl SqliteError) \<and>
   (\<not> (raises Connect \<or> raises CreateTable \<or> raises Update \<or> raises Commit) \<longrightarrow>
      fst (store_result raises tid res s) = Inr () \<and>
      (select_task tid s = None \<longrightarrow> db (snd (store_result raises tid res s)) = db s) \<and>
      (select_task tid s \<noteq> None \<longrightarrow>
         map_option task_id (select_task tid (snd (store_result raises tid res s))) = Some tid \<and>
         map_option status (select_task tid (snd (store_result raises tid res s)))
           = Some ''done'' \<and>
         map_option result (select_task tid (snd (store_result raises tid res s)))
           = Some (Some res)))"
proof -
  let ?s' = "snd (store_result raises tid res s)"
  have run: "\<not> (raises Connect \<or> raises CreateTable \<or> raises Update \<or> raises Commit) \<longrightarrow>
      fst (store_result raises tid res s) = Inr () \<and>
      (select_task tid s = None \<longrightarrow> db ?s' = db s) \<and>
      (select_task tid s \<noteq> None \<longrightarrow>
         map_option task_id (select_task tid ?s') = Some tid \<and>
         map_option status (select_task tid ?s') = Some ''done'' \<and>
         map_option result (select_task tid ?s') = Some (Some res))"
  proof
    assume ok: "\<not> (raises Connect \<or> raises CreateTable \<or> raises Update \<or> raises Commit)"
    note db' = store_result_runs(2) [OF ok, of tid res s]
    have a: "fst (store_result raises tid res s) = Inr ()"
      using ok by (rule store_result_runs(1))
    have b: "select_task tid s = None \<longrightarrow> db ?s' = db s"
      unfolding db' select_task_def by (simp add: update_rows_absent)
    have sel: "select_task tid ?s'
        = map_option (\<lambda>r. r\<lparr>status := ''done'', result := Some res\<rparr>) (select_task tid s)"
      unfolding select_task_def db' by (rule find_update_rows)
    have c: "select_task tid s \<noteq> None \<longrightarrow>
        map_option task_id (select_task tid ?s') = Some tid \<and>
        map_option status (select_task tid ?s') = Some ''done'' \<and>
        map_option result (select_task tid ?s') = Some (Some res)"
    proof
      assume "select_task tid s \<noteq> None"
      then obtain row where row: "select_task tid s = Some row" by auto
      then have "task_id row = tid"
        by (auto simp: select_task_def dest: find_Some_iff [THEN iffD1])
      with row show "map_option task_id (select_task tid ?s') = Some tid \<and>
        map_option status (select_task tid ?s') = Some ''done'' \<and>
        map_option result (select_task tid ?s') = Some (Some res)"
        by (simp add: sel)
    qed
    from a b c show "fst (store_result raises tid res s) = Inr () \<and>
      (select_task tid s = None \<longrightarrow> db ?s' = db s) \<and>
      (select_task tid s \<noteq> None \<longrightarrow>
         map_option task_id (select_task tid ?s') = Some tid \<and>
         map_option status (select_task tid ?s') = Some ''done'' \<and>
         map_option result (select_task tid ?s') = Some (Some res))"
      by blast
  qed
  from store_result_errors [of raises tid res s] run show ?thesis by blast
qed

theorem store_result_updates_known_id_witness:
  "select_task ''t9'' (snd (add_task (\<lambda>c. False) ''t1'' ''ls'' (new_store False empty_dir))) = None \<and>
   db (snd (store_result (\<lambda>c. False) ''t9'' ''out''
         (snd (add_task (\<lambda>c. False) ''t1'' ''ls'' (new_store False empty_dir)))))
     = db (snd (add_task (\<lambda>c. False) ''t1'' ''ls'' (new_store False empty_dir))) \<and>
   select_task ''t1'' (snd (add_task (\<lambda>c. False) ''t1'' ''ls'' (new_store False empty_dir)))
     \<noteq> None \<and>
   fst (store_result (\<lambda>c. False) ''t1'' ''out''
         (snd (add_task (\<lambda>c. False) ''t1'' ''ls'' (new_store False empty_dir))))
     = Inr () \<and>
   map_option status (select_task ''t1''
       (snd (store_result (\<lambda>c. False) ''t1'' ''out''
         (snd (add_task (\<lambda>c. False) ''t1'' ''ls'' (new_store False empty_dir))))))
     = Some ''done'' \<and>
   map_option result (select_task ''t1''
       (snd (store_result (\<lambda>c. False) ''t1'' ''out''
         (snd (add_task (\<lambda>c. False) ''t1'' ''ls'' (new_store False empty_dir))))))
     = Some (Some ''out'') \<and>
   fst (store_result (\<lambda>c. c = Commit) ''t1'' ''out''
         (snd (add_task (\<lambda>c. False) ''t1'' ''ls'' (new_store False empty_dir))))
     = Inl SqliteError"
proof -
  let ?s = "snd (add_task (\<lambda>c. False) ''t1'' ''ls'' (new_store False empty_dir))"
  have h1: "select_task ''t9'' ?s = None"
    by (simp add: select_task_def add_task_def ensure_conn_def new_store_def Let_def)
  have h2: "select_task ''t1'' ?s \<noteq> None"
    by (simp add: select_task_def add_task_def ensure_conn_def new_store_def Let_def)
  have h3: "fst (store_result (\<lambda>c. c = Commit) ''t1'' ''out'' ?s) \<noteq> Inr ()"
    by (simp add: store_result_def add_task_def ensure_conn_def new_store_def Let_def)
  from store_result_updates_known_id [of "\<lambda>c. False" "''t9''" "''out''" ?s]
       store_result_updates_known_id [of "\<lambda>c. False" "''t1''" "''out''" ?s]
       store_result_updates_known_id [of "\<lambda>c. c = Commit" "''t1''" "''out''" ?s] h1 h2 h3
  show ?thesis by simp
qed


subsection \<open>Persistence failures\<close>

lemma same_file_refl [simp]: "same_file f d d"
  by (cases f) simp_all











lemma in_memory_save_index [simp]: "in_memory (save_index s) = in_memory s"
  by (simp add: in_memory_def save_index_def)













subsection \<open>Deletion\<close>

lemma count_one_remove1: "count_list xs e = 1 \<Longrightarrow> e \<notin> set (remove1 e xs)"
proof (induction xs)
  case Nil
  then show ?case by simp
next
  case (Cons x xs)
  show ?case
  proof (cases "x = e")
    case True
    with Cons.prems have "count_list xs e = 0" by simp
    then have "e \<notin> set xs" by (simp add: count_list_0_iff)
    with True show ?thesis by simp
  next
    case False
    with Cons show ?thesis by simp
  qed
qed

text \<open>
  C7 as stated fails: \<open>add_embedding\<close> accepts an id the store already knows, and
  then the second \<open>delete_embedding\<close> of that id returns true again.
\<close>
theorem delete_embedding_twice_counterexample:
  "list_embedding_ids (replay [Add ''a'' [1, 0, 0, 0] None, Add ''a'' [0, 1, 0, 0] None]
      (new_store False empty_dir)) = [''a'', ''a''] \<and>
   fst (delete_embedding ''a''
     (replay [Add ''a'' [1, 0, 0, 0] None, Add ''a'' [0, 1, 0, 0] None]
        (new_store False empty_dir))) = Inr True \<and>
   fst (delete_embedding ''a'' (snd (delete_embedding ''a''
     (replay [Add ''a'' [1, 0, 0, 0] None, Add ''a'' [0, 1, 0, 0] None]
        (new_store False empty_dir))))) = Inr True"
  by (simp add: eval_defs)

text \<open>
  C7, as the code has it. On a well-formed store, \<open>delete_embedding\<close> of an id the
  store does not know returns false and leaves the whole object unchanged; of an id it
  knows, it returns true and removes one occurrence (the first) from the known ids;
  and when the id was stored exactly once, a second call returns false.
\<close>
theorem delete_embedding_idempotent:
  assumes "wf_store s"
  shows "(e \<notin> set (list_embedding_ids s) \<longrightarrow> delete_embedding e s = (Inr False, s)) \<and>
         (e \<in> set (list_embedding_ids s) \<longrightarrow>
            fst (delete_embedding e s) = Inr True \<and>
            list_embedding_ids (snd (delete_embedding e s)) = remove1 e (list_embedding_ids s)) \<and>
         (count_list (list_embedding_ids s) e = 1 \<longrightarrow>
            fst (delete_embedding e (snd (delete_embedding e s))) = Inr False)"
proof -
  have a: "e \<notin> set (list_embedding_ids s) \<longrightarrow> delete_embedding e s = (Inr False, s)"
    using assms by (simp add: delete_embedding_absent)
  have b: "e \<in> set (list_embedding_ids s) \<longrightarrow>
            fst (delete_embedding e s) = Inr True \<and>
            list_embedding_ids (snd (delete_embedding e s)) = remove1 e (list_embedding_ids s)"
    using assms by (simp add: delete_embedding_present)
  have c: "count_list (list_embedding_ids s) e = 1 \<longrightarrow>
            fst (delete_embedding e (snd (delete_embedding e s))) = Inr False"
  proof
    assume one: "count_list (list_embedding_ids s) e = 1"
    let ?s' = "snd (delete_embedding e s)"
    have wf': "wf_store ?s'" using assms by (rule delete_embedding_wf)
    have "list_embedding_ids ?s' = remove1 e (list_embedding_ids s)"
      using assms by (rule delete_embedding_ids)
    with one have "e \<notin> set (list_embedding_ids ?s')" by (simp add: count_one_remove1)
    with wf' show "fst (delete_embedding e ?s') = Inr False"
      by (simp add: delete_embedding_absent)
  qed
  from a b c show ?thesis by blast
qed

theorem delete_embedding_idempotent_witness:
  "wf_store (replay [Add ''a'' [1, 0, 0, 0] None, Add ''b'' [0, 1, 0, 0] None]
      (new_store True empty_dir)) \<and>
   delete_embedding ''c'' (replay [Add ''a'' [1, 0, 0, 0] None, Add ''b'' [0, 1, 0, 0] None]
      (new_store True empty_dir))
     = (Inr False, replay [Add ''a'' [1, 0, 0, 0] None, Add ''b'' [0, 1, 0, 0] None]
      (new_store True empty_dir)) \<and>
   count_list (list_embedding_ids (replay [Add ''a'' [1, 0, 0, 0] None, Add ''b'' [0, 1, 0, 0] None]
      (new_store True empty_dir))) ''a'' = 1 \<and>
   fst (delete_embedding ''a'' (replay [Add ''a'' [1, 0, 0, 0] None, Add ''b'' [0, 1, 0, 0] None]
      (new_store True empty_dir))) = Inr True \<and>
   list_embedding_ids (snd (delete_embedding ''a''
      (replay [Add ''a'' [1, 0, 0, 0] None, Add ''b'' [0, 1, 0, 0] None]
         (new_store True empty_dir)))) = [''b''] \<and>
   fst (delete_embedding ''a'' (snd (delete_embedding ''a''
      (replay [Add ''a'' [1, 0, 0, 0] None, Add ''b'' [0, 1, 0, 0] None]
         (new_store True empty_dir))))) = Inr False"
proof -
  let ?s = "replay [Add ''a'' [1, 0, 0, 0] None, Add ''b'' [0, 1, 0, 0] None]
      (new_store True empty_dir)"
  have ids: "list_embedding_ids ?s = [''a'', ''b'']" by (simp add: eval_defs)
  have wf: "wf_store ?s"
    by (simp add: replay_def add_embedding_wf wf_store_new_store)
  from delete_embedding_idempotent [OF wf, of "''c''"] delete_embedding_idempotent [OF wf, of "''a''"] ids wf show ?thesis by simp
qed


subsection \<open>Uniqueness of ids\<close>

lemma add_embedding_ids:
  "wf_store s \<Longrightarrow>
   list_embedding_ids (snd (add_embedding e v m s))
     = (if int (length v) = embedding_dim s then list_embedding_ids s @ [e]
        else list_embedding_ids s)"
  using add_embedding_ok [of s v e m] add_embedding_bad_dim [of s v e m]
  by (simp add: wf_store_def)

lemma replay_keeps_distinct:
  "wf_store s \<Longrightarrow> distinct (list_embedding_ids s) \<Longrightarrow> fresh_adds ops s \<Longrightarrow>
   distinct (list_embedding_ids (replay ops s)) \<and> wf_store (replay ops s)"
proof (induction ops arbitrary: s)
  case Nil
  then show ?case by (simp add: replay_def)
next
  case (Cons x ops)
  have wf': "wf_store (apply_op x s)" using Cons.prems(1) by (rule apply_op_wf)
  have d': "distinct (list_embedding_ids (apply_op x s))"
  proof (cases x)
    case (Add e v m)
    with Cons.prems(3) have "e \<notin> set (list_embedding_ids s)" by simp
    with Add Cons.prems(1,2) show ?thesis by (simp add: add_embedding_ids)
  next
    case (Delete e)
    with Cons.prems(1,2) show ?thesis by (simp add: delete_embedding_ids)
  qed
  have f': "fresh_adds ops (apply_op x s)" using Cons.prems(3) by (cases x) simp_all
  from Cons.IH [OF wf' d' f'] show ?case by (simp add: replay_def)
qed

text \<open>
  C9 as stated fails: two calls of \<open>add_embedding\<close> with the same id leave two records
  under it, on both backends.
\<close>
theorem duplicate_id_counterexample:
  "list_embedding_ids (replay [Add ''a'' [1, 0, 0, 0] None, Add ''a'' [0, 1, 0, 0] None]
      (new_store False empty_dir)) = [''a'', ''a''] \<and>
   list_embedding_ids (replay [Add ''a'' [1, 0, 0, 0] None, Add ''a'' [0, 1, 0, 0] None]
      (new_store True empty_dir)) = [''a'', ''a''] \<and>
   \<not> distinct (list_embedding_ids (replay [Add ''a'' [1, 0, 0, 0] None, Add ''a'' [0, 1, 0, 0] None]
      (new_store False empty_dir)))"
  by (simp add: eval_defs)

text \<open>
  C9, as the code has it. From a well-formed store whose ids are distinct, every
  sequence of \<open>add_embedding\<close> and \<open>delete_embedding\<close> in which each add is called
  with an id the store does not know at that moment leaves the ids distinct.
  \<open>add_embedding\<close> itself does not look for the id: a vector of the right dimension
  is appended under it in every case.
\<close>
theorem ids_distinct_when_adds_fresh:
  assumes "wf_store s"
  shows "(distinct (list_embedding_ids s) \<and> fresh_adds ops s \<longrightarrow>
            distinct (list_embedding_ids (replay ops s))) \<and>
         (int (length v) = embedding_dim s \<longrightarrow>
            list_embedding_ids (snd (add_embedding e v m s)) = list_embedding_ids s @ [e])"
  using replay_keeps_distinct [OF assms, of ops] add_embedding_ids [OF assms, of e v m]
  by simp

theorem ids_distinct_when_adds_fresh_witness:
  "wf_store (new_store True empty_dir) \<and>
   distinct (list_embedding_ids (new_store True empty_dir)) \<and>
   fresh_adds [Add ''a'' [1, 0, 0, 0] None, Add ''b'' [0, 1, 0, 0] None, Delete ''a'',
               Add ''a'' [0, 0, 1, 0] None] (new_store True empty_dir) \<and>
   distinct (list_embedding_ids
     (replay [Add ''a'' [1, 0, 0, 0] None, Add ''b'' [0, 1, 0, 0] None, Delete ''a'',
              Add ''a'' [0, 0, 1, 0] None] (new_store True empty_dir))) \<and>
   int (length [1, 0, 0, 0 :: real]) = embedding_dim (new_store True empty_dir) \<and>
   list_embedding_ids (snd (add_embedding ''a'' [1, 0, 0, 0] None (new_store True empty_dir)))
     = [''a'']"
proof -
  let ?s = "new_store True empty_dir"
  let ?ops = "[Add ''a'' [1, 0, 0, 0] None, Add ''b'' [0, 1, 0, 0] None, Delete ''a'',
               Add ''a'' [0, 0, 1, 0] None]"
  have h1: "wf_store ?s" by (rule wf_store_new_store)
  have h2: "list_embedding_ids ?s = []" by (simp add: new_store_def list_embedding_ids_def)
  have h3: "fresh_adds ?ops ?s" by (simp add: eval_defs)
  have h4: "int (length [1, 0, 0, 0 :: real]) = embedding_dim ?s" by (simp add: new_store_def)
  from ids_distinct_when_adds_fresh [OF h1, of ?ops "[1, 0, 0, 0]" "''a''" None] h1 h2 h3 h4 show ?thesis by simp
qed

subsection \<open>Loading at construction\<close>

lemma Memory_init_total:
  "\<not> mkdir_fails d \<Longrightarrow> \<exists>s. Memory_init numpy faiss rm rows edim d = Inr s"
  by (simp add: Memory_init_def)

text \<open>
  C8. When \<open>_load_index\<close> raises, the constructor is to start from an empty embedding
  state (\<open># Start fresh if loading fails\<close>). It does not raise, but it keeps what
  \<open>_load_index\<close> assigned before the exception: with an intact \<open>embeddings.npy\<close> and
  an unreadable \<open>emb_ids.json\<close> the matrix stays loaded with no ids, so that the next
  \<open>add_embedding\<close> stores its vector as row 1 under an id list of length 1; with an
  intact \<open>index.faiss\<close> and an unreadable \<open>meta.json\<close> the index stays loaded with
  an empty mapping.
\<close>
theorem partial_load_is_kept:
  "fst (load_index (new_store False half_numpy_dir)) = Some ParseError \<and>
   Memory_init True False True [] 4 half_numpy_dir
     = Inr ((new_store False half_numpy_dir)\<lparr>emb_matrix := Some [[1, 0, 0, 0]]\<rparr>) \<and>
   emb_matrix (snd (add_embedding ''b'' [0, 1, 0, 0] None
      ((new_store False half_numpy_dir)\<lparr>emb_matrix := Some [[1, 0, 0, 0]]\<rparr>)))
     = Some [[1, 0, 0, 0], [0, 1, 0, 0]] \<and>
   emb_ids (snd (add_embedding ''b'' [0, 1, 0, 0] None
      ((new_store False half_numpy_dir)\<lparr>emb_matrix := Some [[1, 0, 0, 0]]\<rparr>)))
     = [''b''] \<and>
   fst (load_index (new_store True half_faiss_dir)) = Some ParseError \<and>
   Memory_init True True True [] 4 half_faiss_dir
     = Inr ((new_store True half_faiss_dir)\<lparr>faiss_index := Some [(1, [1, 0, 0, 0])]\<rparr>)"
  by (simp add: Memory_init_def load_index_def eval_defs half_numpy_dir_def half_faiss_dir_def)

end
